theory Spec2Isabelle
  imports Main "HOL-Library.AList"
begin

section \<open>Values of the JavaScript run time that index.js touches\<close>

text \<open>
  \<^verbatim>\<open>const hitTracker = {};\<close> is an ordinary object: its own properties are the
  tracked names, each holding an array of \<^verbatim>\<open>Date.now()\<close> values (integers, in
  milliseconds), and every other name is looked up in \<^verbatim>\<open>Object.prototype\<close>.
  The own properties are kept as an association list with one entry per name, in
  the order in which the names were added. (\<^verbatim>\<open>for ... in\<close> and \<^verbatim>\<open>Object.keys\<close>
  visit names that are array indices first; no decision of the middleware depends
  on the order of the names.)
\<close>

type_synonym hitTracker = "(string \<times> int list) list"

text \<open>What \<^verbatim>\<open>hitTracker[name]\<close> can evaluate to.\<close>

datatype js_value =
    JUndefined
  | JArray "int list"
  | JFunction nat  \<comment> \<open>a built-in function; the argument is its \<^verbatim>\<open>length\<close> property\<close>
  | JObject        \<comment> \<open>\<^verbatim>\<open>Object.prototype\<close> itself; it has no \<^verbatim>\<open>length\<close>\<close>

text \<open>
  The properties every plain object inherits (ECMAScript, with Annex B), none of
  them enumerable: they are invisible to \<^verbatim>\<open>for ... in\<close> and \<^verbatim>\<open>Object.keys\<close>
  but not to \<^verbatim>\<open>hitTracker[name]\<close>.
\<close>

definition Object_prototype :: "(string \<times> js_value) list" where
  "Object_prototype =
     [(''constructor'', JFunction 1),
      (''__defineGetter__'', JFunction 2),
      (''__defineSetter__'', JFunction 2),
      (''hasOwnProperty'', JFunction 1),
      (''__lookupGetter__'', JFunction 1),
      (''__lookupSetter__'', JFunction 1),
      (''isPrototypeOf'', JFunction 1),
      (''propertyIsEnumerable'', JFunction 1),
      (''toString'', JFunction 0),
      (''valueOf'', JFunction 0),
      (''__proto__'', JObject),
      (''toLocaleString'', JFunction 0)]"

text \<open>\<^verbatim>\<open>hitTracker[name]\<close>: an own property first, then the prototype.\<close>

definition get :: "hitTracker \<Rightarrow> string \<Rightarrow> js_value" where
  "get hitTracker name =
     (case map_of hitTracker name of
        Some timestamps \<Rightarrow> JArray timestamps
      | None \<Rightarrow> (case map_of Object_prototype name of
                   Some v \<Rightarrow> v
                 | None \<Rightarrow> JUndefined))"

text \<open>Truthiness: of the values above only \<^verbatim>\<open>undefined\<close> is falsy.\<close>

fun truthy :: "js_value \<Rightarrow> bool" where
  "truthy JUndefined = False"
| "truthy (JArray ts) = True"
| "truthy (JFunction n) = True"
| "truthy JObject = True"

text \<open>
  \<^verbatim>\<open>v.length >= n\<close>. A missing \<^verbatim>\<open>length\<close> is \<^verbatim>\<open>undefined\<close>, and
  \<^verbatim>\<open>undefined >= n\<close> is false. The middleware reads \<^verbatim>\<open>.length\<close> only behind
  \<^verbatim>\<open>hitTracker[customer_name] &&\<close>, so never of \<^verbatim>\<open>undefined\<close>.
\<close>

fun length_ge :: "js_value \<Rightarrow> nat \<Rightarrow> bool" where
  "length_ge (JArray ts) n = (n \<le> length ts)"
| "length_ge (JFunction m) n = (n \<le> m)"
| "length_ge JObject n = False"
| "length_ge JUndefined n = False"

text \<open>
  \<^verbatim>\<open>req.body.customer_name\<close>: a string of the JSON body, or \<^verbatim>\<open>undefined\<close> when the
  body has no such field. Used as a property name, \<^verbatim>\<open>undefined\<close> becomes the
  string \<^verbatim>\<open>"undefined"\<close>. (A number, a boolean, \<^verbatim>\<open>null\<close>, an array or an object
  in that field would be turned into a string in the same way; the identity of the
  specification is a string, and the other JSON values are left out.)
\<close>

datatype json_field = Absent | Str string

fun property_key :: "json_field \<Rightarrow> string" where
  "property_key Absent = ''undefined''"
| "property_key (Str s) = s"

text \<open>
  What a middleware does with the request: \<^verbatim>\<open>next()\<close>, or
  \<^verbatim>\<open>res.status(code).json({ message })\<close>. An exception thrown by the middleware is
  a \<open>js_error\<close>.
\<close>

datatype outcome = Next | Status nat string

datatype js_error = TypeError

section \<open>The rate limiter\<close>

text \<open>
  Lines 54 to 57, the clean-up loop, with the literal \<^verbatim>\<open>5 * 60 * 1000\<close> as the
  argument \<open>horizon\<close>:
  \<^verbatim>\<open>
  for (const name in hitTracker) {
      hitTracker[name] = hitTracker[name].filter(timestamp => now - timestamp <= 5 * 60 * 1000);
      if (hitTracker[name].length === 0) delete hitTracker[name];
  }
  \<close>
\<close>

fun cleanup :: "int \<Rightarrow> int \<Rightarrow> hitTracker \<Rightarrow> hitTracker" where
  "cleanup now horizon [] = []"
| "cleanup now horizon ((name, timestamps) # rest) =
     (let kept = filter (\<lambda>timestamp. now - timestamp \<le> horizon) timestamps
      in if length kept = 0 then cleanup now horizon rest
         else (name, kept) # cleanup now horizon rest)"

text \<open>
  The middleware of lines 49 to 78. It returns the table as the call leaves it,
  and what the call did: a response, \<^verbatim>\<open>next()\<close>, or the exception of
  \<^verbatim>\<open>hitTracker[customer_name].push(now)\<close> when the value has no \<^verbatim>\<open>push\<close>.
  \<^verbatim>\<open>hitTracker[customer_name] = []\<close> is reached only when the name is neither an
  own nor an inherited property, so it adds an own property.
\<close>

definition rateLimiterMiddleware ::
  "hitTracker \<Rightarrow> json_field \<Rightarrow> int \<Rightarrow> hitTracker \<times> (js_error + outcome)" where
  "rateLimiterMiddleware hitTracker customer_name now =
     (let name = property_key customer_name;
          swept = cleanup now (5 * 60 * 1000) hitTracker;
          customerHits = filter (\<lambda>(n, timestamps). 2 \<le> length timestamps) swept
      in if 2 \<le> length customerHits then
           (swept, Inr (Status 429 ''Maximum limit exceeded (2 hits per 5 minutes)''))
         else if truthy (get swept name) \<and> length_ge (get swept name) 1 then
           (swept, Inr (Status 429 ''Maximum limit exceeded (1 hit per 2 minutes)''))
         else
           (let tracked = (if \<not> truthy (get swept name)
                           then AList.update name [] swept else swept)
            in case get tracked name of
                 JArray timestamps \<Rightarrow>
                   (AList.update name (timestamps @ [now]) tracked, Inr Next)
               | _ \<Rightarrow> (tracked, Inl TypeError)))"

text \<open>The two denials of the rate limiter, under the names the specification gives them.\<close>

definition GLOBAL_BURST_EXCEEDED :: outcome where
  "GLOBAL_BURST_EXCEEDED = Status 429 ''Maximum limit exceeded (2 hits per 5 minutes)''"

definition IDENTITY_COOLDOWN :: outcome where
  "IDENTITY_COOLDOWN = Status 429 ''Maximum limit exceeded (1 hit per 2 minutes)''"

section \<open>The time restriction\<close>

text \<open>
  \<^verbatim>\<open>new Date()\<close> as the middleware reads it: \<^verbatim>\<open>getDay()\<close> (Sunday is 0) and
  \<^verbatim>\<open>getHours()\<close>, both in local time.
\<close>

record js_date =
  getDay :: nat
  getHours :: nat

text \<open>The middleware of lines 81 to 95.\<close>

definition timeRestrictionMiddleware :: "js_date \<Rightarrow> outcome" where
  "timeRestrictionMiddleware now =
     (let dayOfWeek = getDay now;
          hours = getHours now
      in if dayOfWeek = 1 then Status 403 ''Please do not use this API on Monday''
         else if 8 \<le> hours \<and> hours < 12 then
           Status 403 ''Restricted time: Please try after 3pm''
         else Next)"

text \<open>Its two denials, under the names the specification gives them.\<close>

definition BLACKOUT_DAY :: outcome where
  "BLACKOUT_DAY = Status 403 ''Please do not use this API on Monday''"

definition BLACKOUT_HOURS :: outcome where
  "BLACKOUT_HOURS = Status 403 ''Restricted time: Please try after 3pm''"

section \<open>Tokens\<close>

text \<open>
  The claims of a credential and the credential, as the specification's data model
  has them. Instants and lifetimes of credentials are in seconds. The signature is
  whatever the signing primitive \<open>mac\<close> returns for a secret and the claims; the
  primitive is an argument of everything below.
\<close>

record claims =
  subject :: string
  issuedAt :: int
  expiresAt :: int

record 'sig credential =
  claims :: claims
  signature :: 'sig

datatype verify_error = EXPIRED | INVALID_SIGNATURE

text \<open>
  Modelled from the spec: \<^verbatim>\<open>jwt.sign\<close> of the jsonwebtoken package, whose code is
  not among the sources. Section 4.3 of the specification (CredentialSigner, sign):
  the claims are the subject, \<open>issuedAt = now\<close> and \<open>expiresAt = now + ttl\<close>, signed
  with the secret.
\<close>

definition sign ::
  "(string \<Rightarrow> claims \<Rightarrow> 'sig) \<Rightarrow> string \<Rightarrow> int \<Rightarrow> string \<Rightarrow> int \<Rightarrow> 'sig credential" where
  "sign mac secret ttl subj now =
     (let c = \<lparr>subject = subj, issuedAt = now, expiresAt = now + ttl\<rparr>
      in \<lparr>claims = c, signature = mac secret c\<rparr>)"

text \<open>
  Modelled from the spec: \<^verbatim>\<open>jwt.verify\<close> of the jsonwebtoken package, whose code is
  not among the sources. Section 4.3 of the specification (CredentialSigner,
  verify): \<open>EXPIRED\<close> if \<open>now > expiresAt\<close>, \<open>INVALID_SIGNATURE\<close> if the signature is not
  the one recomputed over the claims with the secret, otherwise the subject.
\<close>

definition verify ::
  "(string \<Rightarrow> claims \<Rightarrow> 'sig) \<Rightarrow> string \<Rightarrow> 'sig credential \<Rightarrow> int \<Rightarrow> verify_error + string" where
  "verify mac secret token now =
     (if now > expiresAt (claims token) then Inl EXPIRED
      else if signature token \<noteq> mac secret (claims token) then Inl INVALID_SIGNATURE
      else Inr (subject (claims token)))"

text \<open>The two secrets of \<^verbatim>\<open>process.env\<close>.\<close>

record env =
  ACCESS_TOKEN_SECRET :: string
  REFRESH_TOKEN_SECRET :: string

text \<open>
  The lifetimes \<^verbatim>\<open>'30m'\<close> and \<^verbatim>\<open>'1y'\<close> that \<^verbatim>\<open>generateTokens\<close> passes as
  \<^verbatim>\<open>expiresIn\<close>, in seconds, as jsonwebtoken reads the two strings: 30 minutes
  are 1800 seconds, and a year is 365.25 days, that is 31557600 seconds.
\<close>

definition expiresIn_30m :: int where
  "expiresIn_30m = 30 * 60"

definition expiresIn_1y :: int where
  "expiresIn_1y = 31557600"

record 'sig tokens =
  accessToken :: "'sig credential"
  refreshToken :: "'sig credential"

text \<open>
  \<^verbatim>\<open>generateTokens\<close>, lines 29 to 33. The payload \<^verbatim>\<open>{ userId }\<close> is the subject.
\<close>

definition generateTokens ::
  "(string \<Rightarrow> claims \<Rightarrow> 'sig) \<Rightarrow> env \<Rightarrow> string \<Rightarrow> int \<Rightarrow> 'sig tokens" where
  "generateTokens mac e userId now =
     \<lparr>accessToken = sign mac (ACCESS_TOKEN_SECRET e) expiresIn_30m userId now,
      refreshToken = sign mac (REFRESH_TOKEN_SECRET e) expiresIn_1y userId now\<rparr>"

text \<open>
  The route \<^verbatim>\<open>POST /auth/refresh\<close>, lines 137 to 147: what it sends back.
  \<^verbatim>\<open>req.body.refreshToken\<close> is \<open>None\<close> when the body has none.
\<close>

datatype 'sig refresh_response = Refused nat string | Json "'sig tokens"

definition refresh ::
  "(string \<Rightarrow> claims \<Rightarrow> 'sig) \<Rightarrow> env \<Rightarrow> 'sig credential option \<Rightarrow> int
     \<Rightarrow> 'sig refresh_response" where
  "refresh mac e req_refreshToken now =
     (case req_refreshToken of
        None \<Rightarrow> Refused 401 ''Unauthorized''
      | Some token \<Rightarrow>
          (case verify mac (REFRESH_TOKEN_SECRET e) token now of
             Inl err \<Rightarrow> Refused 403 ''Forbidden''
           | Inr userId \<Rightarrow> Json (generateTokens mac e userId now)))"

text \<open>
  A signing primitive and an environment for the concrete instances below: the
  signature is the pair of the secret and the claims.
\<close>

definition mac0 :: "string \<Rightarrow> claims \<Rightarrow> string \<times> claims" where
  "mac0 secret c = (secret, c)"

definition env0 :: env where
  "env0 = \<lparr>ACCESS_TOKEN_SECRET = ''access'', REFRESH_TOKEN_SECRET = ''refresh''\<rparr>"

section \<open>The clean-up loop\<close>

lemma cleanup_as_filter:
  "cleanup now horizon h =
     filter (\<lambda>(name, ts). ts \<noteq> [])
       (map (\<lambda>(name, ts). (name, filter (\<lambda>t. now - t \<le> horizon) ts)) h)"
  by (induction h) (auto simp: Let_def)

lemma cleanup_keys: "fst ` set (cleanup now horizon h) \<subseteq> fst ` set h"
  unfolding cleanup_as_filter by force

lemma cleanup_map_of:
  assumes "distinct (map fst h)"
  shows "map_of (cleanup now horizon h) key =
     (case map_of h key of
        None \<Rightarrow> None
      | Some ts \<Rightarrow> if filter (\<lambda>t. now - t \<le> horizon) ts = [] then None
                  else Some (filter (\<lambda>t. now - t \<le> horizon) ts))"
  using assms
proof (induction h)
  case Nil
  then show ?case by simp
next
  case (Cons e h)
  obtain name ts where e: "e = (name, ts)" by (cases e)
  from Cons.prems e have notin: "name \<notin> fst ` set h" and d: "distinct (map fst h)" by auto
  from notin cleanup_keys [of now horizon h] have gone: "map_of (cleanup now horizon h) name = None"
    by (metis map_of_eq_None_iff subsetD)
  from notin have gone0: "map_of h name = None"
    by (simp add: map_of_eq_None_iff)
  show ?case
    using Cons.IH [OF d] gone gone0 by (simp add: e Let_def)
qed

lemma cleanup_entries:
  "(name, ts) \<in> set (cleanup now horizon h) \<Longrightarrow> ts \<noteq> [] \<and> (\<forall>t \<in> set ts. now - t \<le> horizon)"
  by (auto simp: cleanup_as_filter)

lemma cleanup_distinct: "distinct (map fst h) \<Longrightarrow> distinct (map fst (cleanup now horizon h))"
proof (induction h)
  case Nil
  then show ?case by simp
next
  case (Cons e h)
  obtain name ts where e: "e = (name, ts)" by (cases e)
  from Cons.prems e cleanup_keys [of now horizon h]
  have "name \<notin> fst ` set (cleanup now horizon h)" by auto
  with Cons show ?case by (simp add: e Let_def)
qed

text \<open>
  C5. For a table with one entry per name, the sweep leaves under every name
  exactly the timestamps \<open>t\<close> with \<open>now - t \<le> horizon\<close>, in their order, and
  removes the name when none is left; the length read afterwards is the number
  of recorded timestamps within the horizon; and every timestamp that remains
  anywhere in the table is within the horizon, with no empty sequence left.
\<close>

theorem cleanup_window:
  assumes "distinct (map fst h)"
  shows "map_of (cleanup now horizon h) key =
           (case map_of h key of
              None \<Rightarrow> None
            | Some ts \<Rightarrow> if filter (\<lambda>t. now - t \<le> horizon) ts = [] then None
                        else Some (filter (\<lambda>t. now - t \<le> horizon) ts))
       \<and> (\<forall>ts. map_of h key = Some ts \<longrightarrow>
             (case map_of (cleanup now horizon h) key of Some kept \<Rightarrow> length kept | None \<Rightarrow> 0)
               = card {i. i < length ts \<and> now - ts ! i \<le> horizon})
       \<and> (\<forall>(name, ts) \<in> set (cleanup now horizon h).
             ts \<noteq> [] \<and> (\<forall>t \<in> set ts. now - t \<le> horizon))"
proof (intro conjI allI impI)
  show m: "map_of (cleanup now horizon h) key =
           (case map_of h key of
              None \<Rightarrow> None
            | Some ts \<Rightarrow> if filter (\<lambda>t. now - t \<le> horizon) ts = [] then None
                        else Some (filter (\<lambda>t. now - t \<le> horizon) ts))"
    by (rule cleanup_map_of [OF assms])
  show "(case map_of (cleanup now horizon h) key of Some kept \<Rightarrow> length kept | None \<Rightarrow> 0)
               = card {i. i < length ts \<and> now - ts ! i \<le> horizon}"
    if "map_of h key = Some ts" for ts
  proof -
    have "length (filter (\<lambda>t. now - t \<le> horizon) ts) = card {i. i < length ts \<and> now - ts ! i \<le> horizon}"
      by (rule length_filter_conv_card)
    with that m show ?thesis by (simp split: if_splits)
  qed
  show "\<forall>(name, ts) \<in> set (cleanup now horizon h).
             ts \<noteq> [] \<and> (\<forall>t \<in> set ts. now - t \<le> horizon)"
    using cleanup_entries by blast
qed

theorem cleanup_window_witness:
  "distinct (map fst [(''A'', [0, 100000, 350000 :: int]), (''B'', [0])])
   \<and> map_of (cleanup 400000 300000 [(''A'', [0, 100000, 350000]), (''B'', [0])]) ''A''
       = Some [100000, 350000]
   \<and> card {i. i < length [0, 100000, 350000 :: int] \<and> 400000 - [0, 100000, 350000 :: int] ! i \<le> 300000} = 2
   \<and> map_of (cleanup 400000 300000 [(''A'', [0, 100000, 350000]), (''B'', [0])]) ''B'' = None
   \<and> cleanup 400000 300000 [(''A'', [0, 100000, 350000]), (''B'', [0])] = [(''A'', [100000, 350000])]"
  using cleanup_window [of "[(''A'', [0, 100000, 350000]), (''B'', [0])]" 400000 300000 "''A''"]
    cleanup_window [of "[(''A'', [0, 100000, 350000]), (''B'', [0])]" 400000 300000 "''B''"]
  by simp

text \<open>
  C10. Sweeping twice in succession with the same instant and horizon leaves the
  table that one sweep leaves.
\<close>

theorem cleanup_idempotent:
  "cleanup now horizon (cleanup now horizon h) = cleanup now horizon h"
  by (induction h) (auto simp: Let_def)

section \<open>The decisions of the rate limiter\<close>

lemma update_absent: "name \<notin> fst ` set al \<Longrightarrow> AList.update name v al = al @ [(name, v)]"
  by (induction al) auto

lemma update_appended:
  "name \<notin> fst ` set al \<Longrightarrow> AList.update name v (al @ [(name, w)]) = al @ [(name, v)]"
  by (induction al) auto

lemma map_of_absent: "name \<notin> fst ` set al \<Longrightarrow> map_of al name = None"
  by (simp add: map_of_eq_None_iff)

lemma get_own:
  assumes "name \<in> fst ` set (cleanup now horizon h)"
  shows "truthy (get (cleanup now horizon h) name) \<and> length_ge (get (cleanup now horizon h) name) 1"
proof -
  from assms obtain ts where m: "map_of (cleanup now horizon h) name = Some ts"
    by (metis map_of_eq_None_iff not_Some_eq)
  then have "(name, ts) \<in> set (cleanup now horizon h)" by (rule map_of_SomeD)
  then have "ts \<noteq> []" using cleanup_entries by blast
  then have "1 \<le> length ts" by (cases ts) auto
  with m show ?thesis by (simp add: get_def)
qed

lemma get_not_own:
  "name \<notin> fst ` set al \<Longrightarrow>
     get al name = (case map_of Object_prototype name of Some v \<Rightarrow> v | None \<Rightarrow> JUndefined)"
  by (simp add: get_def map_of_absent)

lemma get_appended: "name \<notin> fst ` set al \<Longrightarrow> get (al @ [(name, ts)]) name = JArray ts"
  by (simp add: get_def map_of_absent map_add_def)

lemma rateLimiterMiddleware_cases:
  "rateLimiterMiddleware h cn now =
     (let name = property_key cn;
          swept = cleanup now (5 * 60 * 1000) h
      in if 2 \<le> length (filter (\<lambda>(n, ts). 2 \<le> length ts) swept) then
           (swept, Inr GLOBAL_BURST_EXCEEDED)
         else if name \<in> fst ` set swept then (swept, Inr IDENTITY_COOLDOWN)
         else (case map_of Object_prototype name of
                 None \<Rightarrow> (swept @ [(name, [now])], Inr Next)
               | Some (JFunction n) \<Rightarrow>
                   if 1 \<le> n then (swept, Inr IDENTITY_COOLDOWN) else (swept, Inl TypeError)
               | Some v \<Rightarrow> (swept, Inl TypeError)))"
proof -
  define name where "name = property_key cn"
  define swept where "swept = cleanup now 300000 h"
  consider (burst) "2 \<le> length (filter (\<lambda>(n, ts). 2 \<le> length ts) swept)"
    | (own) "\<not> 2 \<le> length (filter (\<lambda>(n, ts). 2 \<le> length ts) swept)" "name \<in> fst ` set swept"
    | (other) "\<not> 2 \<le> length (filter (\<lambda>(n, ts). 2 \<le> length ts) swept)" "name \<notin> fst ` set swept"
    by blast
  then show ?thesis
  proof cases
    case burst
    then show ?thesis
      by (simp add: rateLimiterMiddleware_def GLOBAL_BURST_EXCEEDED_def
          swept_def [symmetric] name_def [symmetric] Let_def)
  next
    case own
    from own(2) have "truthy (get swept name) \<and> length_ge (get swept name) 1"
      unfolding swept_def by (rule get_own)
    with own show ?thesis
      by (simp add: rateLimiterMiddleware_def IDENTITY_COOLDOWN_def
          swept_def [symmetric] name_def [symmetric] Let_def)
  next
    case other
    note g = get_not_own [OF other(2)]
    show ?thesis
    proof (cases "map_of Object_prototype name")
      case None
      with g have u: "get swept name = JUndefined" by simp
      have "AList.update name (([]::int list) @ [now]) (AList.update name [] swept) = swept @ [(name, [now])]"
        using other(2) by (simp add: update_absent update_appended)
      moreover have "get (AList.update name [] swept) name = JArray []"
        using other(2) by (simp add: update_absent get_appended)
      ultimately show ?thesis
        using other None u
        by (simp add: rateLimiterMiddleware_def swept_def [symmetric] name_def [symmetric] Let_def)
    next
      case (Some v)
      with g have u: "get swept name = v" by simp
      from Some have "v \<noteq> JUndefined \<and> (\<forall>ts. v \<noteq> JArray ts)"
        by (auto simp: Object_prototype_def split: if_splits)
      with other Some u show ?thesis
        by (cases v)
          (simp_all add: rateLimiterMiddleware_def IDENTITY_COOLDOWN_def
            swept_def [symmetric] name_def [symmetric] Let_def)
    qed
  qed
qed

lemma burst_count:
  "card {name. \<exists>ts. (name, ts) \<in> set al \<and> P ts} \<le> length (filter (\<lambda>(n, ts). P ts) al)"
proof -
  have "{name. \<exists>ts. (name, ts) \<in> set al \<and> P ts} = fst ` set (filter (\<lambda>(n, ts). P ts) al)"
    by force
  moreover have "card (fst ` set (filter (\<lambda>(n, ts). P ts) al)) \<le> card (set (filter (\<lambda>(n, ts). P ts) al))"
    by (rule card_image_le) simp
  moreover have "card (set (filter (\<lambda>(n, ts). P ts) al)) \<le> length (filter (\<lambda>(n, ts). P ts) al)"
    by (rule card_length)
  ultimately show ?thesis by simp
qed

text \<open>
  C2. When, after the sweep to five minutes, two or more different names each hold
  two or more timestamps, the request is answered with the global-burst denial
  whatever name it carries, and the table is left as swept. The witness is the
  specification's example: \<open>A\<close> and \<open>B\<close> recorded twice each, then a first request
  of \<open>C\<close>.
\<close>

theorem global_burst:
  assumes "2 \<le> card {name. \<exists>ts. (name, ts) \<in> set (cleanup now (5 * 60 * 1000) h) \<and> 2 \<le> length ts}"
  shows "rateLimiterMiddleware h customer_name now
           = (cleanup now (5 * 60 * 1000) h, Inr GLOBAL_BURST_EXCEEDED)"
proof -
  from assms burst_count [of "cleanup now (5 * 60 * 1000) h" "\<lambda>ts. 2 \<le> length ts"]
  have "2 \<le> length (filter (\<lambda>(n, ts). 2 \<le> length ts) (cleanup now (5 * 60 * 1000) h))"
    by linarith
  then show ?thesis
    by (simp add: rateLimiterMiddleware_cases Let_def)
qed

theorem global_burst_witness:
  "rateLimiterMiddleware [(''A'', [0, 1000]), (''B'', [2000, 3000])] (Str ''C'') 4000
     = ([(''A'', [0, 1000]), (''B'', [2000, 3000])], Inr GLOBAL_BURST_EXCEEDED)"
proof -
  have "{name. \<exists>ts. (name, ts) \<in> set (cleanup 4000 (5 * 60 * 1000) [(''A'', [0, 1000]), (''B'', [2000, 3000])])
            \<and> 2 \<le> length ts} = {''A'', ''B''}"
    by auto
  then have "2 \<le> card {name. \<exists>ts. (name, ts) \<in> set (cleanup 4000 (5 * 60 * 1000) [(''A'', [0, 1000]), (''B'', [2000, 3000])])
            \<and> 2 \<le> length ts}"
    by simp
  from global_burst [OF this, of "Str ''C''"] show ?thesis by simp
qed

text \<open>
  C1. With the single hit \<open>t0\<close> of \<open>A\<close> in the table, a request of \<open>A\<close> is denied
  with the cool-down answer at \<open>t0 + 119s\<close>, and also at \<open>t0 + 121s\<close> and up to
  \<open>t0 + 300s\<close>: line 66 tests the sequence that the sweep pruned to five minutes,
  and nothing in the middleware compares against two minutes. The first instant
  that admits \<open>A\<close> again is \<open>t0 + 300s + 1ms\<close>.
\<close>

theorem cooldown_lasts_five_minutes:
  "rateLimiterMiddleware [(''A'', [t0])] (Str ''A'') (t0 + 119 * 1000)
     = ([(''A'', [t0])], Inr IDENTITY_COOLDOWN)
   \<and> rateLimiterMiddleware [(''A'', [t0])] (Str ''A'') (t0 + 121 * 1000)
     = ([(''A'', [t0])], Inr IDENTITY_COOLDOWN)
   \<and> rateLimiterMiddleware [(''A'', [t0])] (Str ''A'') (t0 + 300 * 1000)
     = ([(''A'', [t0])], Inr IDENTITY_COOLDOWN)
   \<and> rateLimiterMiddleware [(''A'', [t0])] (Str ''A'') (t0 + 300 * 1000 + 1)
     = ([(''A'', [t0 + 300 * 1000 + 1])], Inr Next)"
  by (simp add: rateLimiterMiddleware_cases Let_def Object_prototype_def)

text \<open>
  C9. On the empty table a request whose \<^verbatim>\<open>customer_name\<close> is \<^verbatim>\<open>"toString"\<close> is not
  answered by the middleware: \<^verbatim>\<open>hitTracker["toString"]\<close> is the inherited function,
  truthy and of length 0, so no array is stored and \<^verbatim>\<open>.push(now)\<close> throws.
\<close>

theorem inherited_name_raises:
  "rateLimiterMiddleware [] (Str ''toString'') now = ([], Inl TypeError)"
  by (simp add: rateLimiterMiddleware_cases Let_def Object_prototype_def)

text \<open>
  C7. After a denial (global burst or cool-down) the table is the swept table. After
  an admission the requesting name, which the swept table did not hold, has got the
  one-element sequence of the evaluation instant, appended as a new entry, and the
  sequence of every other name is the swept one.
\<close>

theorem denial_leaves_swept_table:
  assumes "rateLimiterMiddleware h customer_name now = (h', out)"
  shows "(out = Inr GLOBAL_BURST_EXCEEDED \<or> out = Inr IDENTITY_COOLDOWN
            \<longrightarrow> h' = cleanup now (5 * 60 * 1000) h)
       \<and> (out = Inr Next \<longrightarrow>
            map_of (cleanup now (5 * 60 * 1000) h) (property_key customer_name) = None
          \<and> h' = cleanup now (5 * 60 * 1000) h @ [(property_key customer_name, [now])]
          \<and> map_of h' (property_key customer_name) = Some [now]
          \<and> (\<forall>k. k \<noteq> property_key customer_name
                 \<longrightarrow> map_of h' k = map_of (cleanup now (5 * 60 * 1000) h) k))"
proof -
  define swept where "swept = cleanup now (5 * 60 * 1000) h"
  define name where "name = property_key customer_name"
  have deny: "h' = swept" if "out = Inr GLOBAL_BURST_EXCEEDED \<or> out = Inr IDENTITY_COOLDOWN"
    using assms that
    by (auto simp: rateLimiterMiddleware_cases Let_def swept_def
        GLOBAL_BURST_EXCEEDED_def IDENTITY_COOLDOWN_def
        split: if_splits option.splits js_value.splits)
  have admit: "name \<notin> fst ` set swept \<and> h' = swept @ [(name, [now])]" if "out = Inr Next"
    using assms that
    by (auto simp: rateLimiterMiddleware_cases Let_def swept_def name_def
        GLOBAL_BURST_EXCEEDED_def IDENTITY_COOLDOWN_def
        split: if_splits option.splits js_value.splits)
  have "map_of swept name = None \<and> h' = swept @ [(name, [now])]
      \<and> map_of h' name = Some [now] \<and> (\<forall>k. k \<noteq> name \<longrightarrow> map_of h' k = map_of swept k)"
    if "out = Inr Next"
  proof -
    from admit [OF that] have a: "name \<notin> fst ` set swept" and b: "h' = swept @ [(name, [now])]"
      by simp_all
    from a have c: "map_of swept name = None" by (rule map_of_absent)
    from b c show ?thesis by (auto simp: map_add_def split: option.splits)
  qed
  with deny show ?thesis unfolding swept_def name_def by blast
qed

theorem denial_leaves_swept_table_witness:
  "rateLimiterMiddleware [(''A'', [0]), (''B'', [200000])] (Str ''C'') 310000
     = ([(''B'', [200000]), (''C'', [310000])], Inr Next)
   \<and> cleanup 310000 (5 * 60 * 1000) [(''A'', [0]), (''B'', [200000])] = [(''B'', [200000])]
   \<and> rateLimiterMiddleware [(''A'', [0]), (''B'', [200000])] (Str ''B'') 310000
     = ([(''B'', [200000])], Inr IDENTITY_COOLDOWN)"
proof -
  have 1: "rateLimiterMiddleware [(''A'', [0]), (''B'', [200000])] (Str ''C'') 310000
     = ([(''B'', [200000]), (''C'', [310000])], Inr Next)"
    by (simp add: rateLimiterMiddleware_cases Let_def Object_prototype_def)
  have 2: "rateLimiterMiddleware [(''A'', [0]), (''B'', [200000])] (Str ''B'') 310000
     = ([(''B'', [200000])], Inr IDENTITY_COOLDOWN)"
    by (simp add: rateLimiterMiddleware_cases Let_def Object_prototype_def)
  from denial_leaves_swept_table [OF 1] denial_leaves_swept_table [OF 2] 1 2
  show ?thesis by simp
qed

text \<open>
  C8. A request without \<^verbatim>\<open>customer_name\<close>, or with the empty string, goes through
  the whole policy under the key \<^verbatim>\<open>"undefined"\<close>, respectively the empty key: the
  global-burst test, the cool-down test on that key, and on admission a hit
  recorded under that key. No branch skips the policy and none throws.
\<close>

theorem degenerate_identity_is_limited:
  assumes "customer_name = Absent \<or> customer_name = Str ''''"
  shows "rateLimiterMiddleware h customer_name now =
     (let key = property_key customer_name;
          swept = cleanup now (5 * 60 * 1000) h
      in if 2 \<le> length (filter (\<lambda>(n, ts). 2 \<le> length ts) swept) then
           (swept, Inr GLOBAL_BURST_EXCEEDED)
         else if key \<in> fst ` set swept then (swept, Inr IDENTITY_COOLDOWN)
         else (swept @ [(key, [now])], Inr Next))"
proof -
  from assms have "map_of Object_prototype (property_key customer_name) = None"
    by (auto simp: Object_prototype_def)
  then show ?thesis
    by (simp add: rateLimiterMiddleware_cases Let_def)
qed

theorem degenerate_identity_is_limited_witness:
  "rateLimiterMiddleware [] Absent 7 = ([(''undefined'', [7])], Inr Next)
   \<and> rateLimiterMiddleware [(''undefined'', [7])] Absent 8 = ([(''undefined'', [7])], Inr IDENTITY_COOLDOWN)
   \<and> rateLimiterMiddleware [] (Str '''') 7 = ([('''', [7])], Inr Next)
   \<and> rateLimiterMiddleware [('''', [7])] (Str '''') 8 = ([('''', [7])], Inr IDENTITY_COOLDOWN)
   \<and> rateLimiterMiddleware [(''A'', [0, 1]), (''B'', [2, 3])] (Str '''') 8
        = ([(''A'', [0, 1]), (''B'', [2, 3])], Inr GLOBAL_BURST_EXCEEDED)"
  using degenerate_identity_is_limited [of Absent "[]" 7]
    degenerate_identity_is_limited [of Absent "[(''undefined'', [7])]" 8]
    degenerate_identity_is_limited [of "Str ''''" "[]" 7]
    degenerate_identity_is_limited [of "Str ''''" "[('''', [7])]" 8]
    degenerate_identity_is_limited [of "Str ''''" "[(''A'', [0, 1]), (''B'', [2, 3])]" 8]
  by (simp add: Let_def)

text \<open>
  Three remarks on the middleware as a whole. A table in which no name holds more
  than one timestamp stays so and never gives the global-burst answer; the empty
  table of line 48 is such a table, and the middleware is the only writer. A table
  with one entry per name stays so. And a name that \<^verbatim>\<open>Object.prototype\<close> does not
  define always gets a decision.
\<close>

lemma cleanup_short:
  assumes "\<forall>(n, ts) \<in> set h. length ts \<le> 1"
  shows "\<forall>(n, ts) \<in> set (cleanup now horizon h). length ts \<le> 1"
proof -
  have "length (filter P ts) \<le> 1" if "length ts \<le> 1" for P and ts :: "int list"
    using that length_filter_le [of P ts] by linarith
  with assms show ?thesis
    by (fastforce simp: cleanup_as_filter)
qed

lemma burst_needs_two_hits:
  assumes "\<forall>(n, ts) \<in> set h. length ts \<le> 1"
  shows "snd (rateLimiterMiddleware h customer_name now) \<noteq> Inr GLOBAL_BURST_EXCEEDED
       \<and> (\<forall>(n, ts) \<in> set (fst (rateLimiterMiddleware h customer_name now)). length ts \<le> 1)"
proof -
  define swept where "swept = cleanup now (5 * 60 * 1000) h"
  from assms have short: "\<forall>(n, ts) \<in> set swept. length ts \<le> 1"
    unfolding swept_def by (rule cleanup_short)
  then have "filter (\<lambda>(n, ts). 2 \<le> length ts) swept = []"
    by (auto simp: filter_empty_conv)
  then have no: "\<not> 2 \<le> length (filter (\<lambda>(n, ts). 2 \<le> length ts) swept)"
    by simp
  from no short show ?thesis
    unfolding rateLimiterMiddleware_cases Let_def swept_def [symmetric]
    by (auto simp: GLOBAL_BURST_EXCEEDED_def IDENTITY_COOLDOWN_def
        split: option.splits js_value.splits)
qed

lemma rateLimiterMiddleware_distinct:
  assumes "distinct (map fst h)"
  shows "distinct (map fst (fst (rateLimiterMiddleware h customer_name now)))"
proof -
  from assms have "distinct (map fst (cleanup now (5 * 60 * 1000) h))"
    by (rule cleanup_distinct)
  then show ?thesis
    unfolding rateLimiterMiddleware_cases Let_def
    by (auto split: option.splits js_value.splits)
qed

lemma rateLimiterMiddleware_decides:
  assumes "map_of Object_prototype (property_key customer_name) = None"
  shows "\<exists>decision. snd (rateLimiterMiddleware h customer_name now) = Inr decision"
  using assms by (simp add: rateLimiterMiddleware_cases Let_def)

section \<open>The decisions of the time restriction\<close>

text \<open>
  C6. On day 1 (Monday, with Sunday as day 0) the request is denied with the
  blackout-day answer at every hour; on any other day it is denied with the
  blackout-hours answer at the hours 8 to 11, and admitted at hour 15.
\<close>

theorem time_blackout:
  "(getDay now = 1 \<longrightarrow> timeRestrictionMiddleware now = BLACKOUT_DAY)
   \<and> (getDay now \<noteq> 1 \<and> 8 \<le> getHours now \<and> getHours now < 12
        \<longrightarrow> timeRestrictionMiddleware now = BLACKOUT_HOURS)
   \<and> (getDay now \<noteq> 1 \<and> getHours now = 15 \<longrightarrow> timeRestrictionMiddleware now = Next)"
  by (simp add: timeRestrictionMiddleware_def BLACKOUT_DAY_def BLACKOUT_HOURS_def Let_def)

theorem time_blackout_witness:
  "timeRestrictionMiddleware \<lparr>getDay = 1, getHours = 15\<rparr> = BLACKOUT_DAY
   \<and> timeRestrictionMiddleware \<lparr>getDay = 2, getHours = 9\<rparr> = BLACKOUT_HOURS
   \<and> timeRestrictionMiddleware \<lparr>getDay = 2, getHours = 15\<rparr> = Next
   \<and> BLACKOUT_DAY \<noteq> BLACKOUT_HOURS \<and> BLACKOUT_DAY \<noteq> Next \<and> BLACKOUT_HOURS \<noteq> Next"
  using time_blackout [of "\<lparr>getDay = 1, getHours = 15\<rparr>"]
    time_blackout [of "\<lparr>getDay = 2, getHours = 9\<rparr>"]
    time_blackout [of "\<lparr>getDay = 2, getHours = 15\<rparr>"]
  by (simp add: BLACKOUT_DAY_def BLACKOUT_HOURS_def)

section \<open>The refresh route\<close>

text \<open>
  C4. When the presented refresh token verifies under the refresh secret for the
  subject \<open>s\<close>, the route answers with a new pair made by \<^verbatim>\<open>generateTokens\<close> for
  \<open>s\<close>: both credentials carry the subject \<open>s\<close>, and the new refresh credential
  expires strictly after \<open>now\<close>. When the verification fails, the route answers
  403 \<^verbatim>\<open>Forbidden\<close> whatever the error is: the error itself is not in the answer,
  and no pair is made.
\<close>

theorem refresh_rotation:
  "(verify mac (REFRESH_TOKEN_SECRET e) token now = Inr s \<longrightarrow>
      refresh mac e (Some token) now
        = Json \<lparr>accessToken = sign mac (ACCESS_TOKEN_SECRET e) expiresIn_30m s now,
                refreshToken = sign mac (REFRESH_TOKEN_SECRET e) expiresIn_1y s now\<rparr>
      \<and> subject (claims (sign mac (ACCESS_TOKEN_SECRET e) expiresIn_30m s now)) = s
      \<and> subject (claims (sign mac (REFRESH_TOKEN_SECRET e) expiresIn_1y s now)) = s
      \<and> now < expiresAt (claims (sign mac (REFRESH_TOKEN_SECRET e) expiresIn_1y s now)))
   \<and> (verify mac (REFRESH_TOKEN_SECRET e) token now = Inl err \<longrightarrow>
        refresh mac e (Some token) now = Refused 403 ''Forbidden''
        \<and> (\<forall>pair. refresh mac e (Some token) now \<noteq> Json pair))"
  by (simp add: refresh_def generateTokens_def sign_def expiresIn_1y_def Let_def)

theorem refresh_rotation_witness:
  "verify mac0 (REFRESH_TOKEN_SECRET env0) (sign mac0 ''refresh'' expiresIn_1y ''user-1'' 0) 100
     = Inr ''user-1''
   \<and> refresh mac0 env0 (Some (sign mac0 ''refresh'' expiresIn_1y ''user-1'' 0)) 100
       = Json \<lparr>accessToken = sign mac0 ''access'' expiresIn_30m ''user-1'' 100,
               refreshToken = sign mac0 ''refresh'' expiresIn_1y ''user-1'' 100\<rparr>
   \<and> expiresAt (claims (sign mac0 ''refresh'' expiresIn_1y ''user-1'' 100)) = 31557700
   \<and> verify mac0 (REFRESH_TOKEN_SECRET env0) (sign mac0 ''access'' expiresIn_30m ''user-1'' 0) 100
       = Inl INVALID_SIGNATURE
   \<and> refresh mac0 env0 (Some (sign mac0 ''access'' expiresIn_30m ''user-1'' 0)) 100
       = Refused 403 ''Forbidden''"
  using refresh_rotation [of mac0 env0 "sign mac0 ''refresh'' expiresIn_1y ''user-1'' 0" 100 "''user-1''"]
    refresh_rotation [of mac0 env0 "sign mac0 ''access'' expiresIn_30m ''user-1'' 0" 100 _ INVALID_SIGNATURE]
  by (simp add: verify_def sign_def mac0_def env0_def expiresIn_1y_def expiresIn_30m_def Let_def)

text \<open>
  The route does not return the error of the verification. At the instant
  31557601 the refresh token issued at 0 is expired, and the token issued at 100
  under the access secret has a signature the refresh secret does not give; the
  two errors differ, and both tokens get the one answer 403 \<^verbatim>\<open>Forbidden\<close>
  (line 142 drops \<^verbatim>\<open>err\<close>).
\<close>

theorem refresh_drops_error_counterexample:
  "verify mac0 (REFRESH_TOKEN_SECRET env0)
       (sign mac0 ''refresh'' expiresIn_1y ''user-1'' 0) 31557601 = Inl EXPIRED
   \<and> verify mac0 (REFRESH_TOKEN_SECRET env0)
       (sign mac0 ''access'' expiresIn_1y ''user-1'' 100) 31557601 = Inl INVALID_SIGNATURE
   \<and> refresh mac0 env0 (Some (sign mac0 ''refresh'' expiresIn_1y ''user-1'' 0)) 31557601
       = Refused 403 ''Forbidden''
   \<and> refresh mac0 env0 (Some (sign mac0 ''access'' expiresIn_1y ''user-1'' 100)) 31557601
       = Refused 403 ''Forbidden''
   \<and> EXPIRED \<noteq> INVALID_SIGNATURE"
  by (simp add: refresh_def verify_def sign_def mac0_def env0_def expiresIn_1y_def Let_def)

text \<open>Without a token the route answers 401 (line 139).\<close>

lemma refresh_without_token: "refresh mac e None now = Refused 401 ''Unauthorized''"
  by (simp add: refresh_def)

end
